theory Spec2Isabelle
  imports Main "HOL-Library.Multiset" "HOL-Library.Product_Lexorder"
begin

section \<open>Data frames and errors\<close>

text \<open>
  Both scripts work on pandas data frames. A frame is modelled by its column labels and
  its rows; a cell is \<open>None\<close> where pandas holds a missing value (NaN, NA, NaT) and
  \<open>Some v\<close> otherwise. The exceptions the scripts raise, and the ones the library
  calls they make can raise, are values of \<open>error\<close>.
\<close>

datatype error =
    ValueError nat
  | TypeError
  | KeyError string
  | CsvNotFound
  | UnknownSchema string
  | MissingColumns "string list"
  | ColumnNotFound string
  | OperationalError string

record 'v frame =
  columns :: "string list"
  rows :: "'v option list list"

text \<open>\<open>df.shape[1]\<close>: the number of columns.\<close>

definition shape1 :: "'v frame \<Rightarrow> nat" where
  "shape1 df = length (columns df)"

text \<open>A frame is rectangular and its labels are distinct, as every frame that
  \<open>pd.read_csv\<close> returns is.\<close>

definition wf_frame :: "'v frame \<Rightarrow> bool" where
  "wf_frame df \<longleftrightarrow>
     distinct (columns df) \<and> list_all (\<lambda>r. length r = length (columns df)) (rows df)"

text \<open>The cell of row \<open>r\<close> under the label \<open>c\<close>, for a row laid out along \<open>cs\<close>.\<close>

fun cell :: "string list \<Rightarrow> 'v option list \<Rightarrow> string \<Rightarrow> 'v option" where
  "cell (c # cs) (v # vs) k = (if c = k then v else cell cs vs k)"
| "cell _ _ k = None"

text \<open>\<open>df[cols]\<close>: the listed columns in the listed order; a label that the frame
  does not have is a \<open>KeyError\<close>.\<close>

definition take_columns :: "string list \<Rightarrow> 'v frame \<Rightarrow> 'v frame" where
  "take_columns cols df =
     \<lparr>columns = cols, rows = map (\<lambda>r. map (cell (columns df) r) cols) (rows df)\<rparr>"

definition getitem :: "string list \<Rightarrow> 'v frame \<Rightarrow> error + 'v frame" where
  "getitem cols df =
     (case find (\<lambda>c. c \<notin> set (columns df)) cols of
        Some c \<Rightarrow> Inl (KeyError c)
      | None \<Rightarrow> Inr (take_columns cols df))"

text \<open>\<open>df[c]\<close>: one column, as the list of its cells.\<close>

definition getcol :: "string \<Rightarrow> 'v frame \<Rightarrow> 'v option list" where
  "getcol c df = map (\<lambda>r. cell (columns df) r c) (rows df)"

text \<open>A column rewritten cell by cell.\<close>

definition map_column :: "string \<Rightarrow> ('v option \<Rightarrow> 'v option) \<Rightarrow> 'v frame \<Rightarrow> 'v frame" where
  "map_column c f df =
     df\<lparr>rows := map (\<lambda>r. map (\<lambda>(k, x). if k = c then f x else x) (zip (columns df) r))
                     (rows df)\<rparr>"

text \<open>\<open>df[c] = v\<close> with a scalar \<open>v\<close>: an existing column is overwritten in
  place, a new one is appended on the right.\<close>

definition setitem :: "string \<Rightarrow> 'v option \<Rightarrow> 'v frame \<Rightarrow> 'v frame" where
  "setitem c v df =
     (if c \<in> set (columns df) then map_column c (\<lambda>_. v) df
      else df\<lparr>columns := columns df @ [c], rows := map (\<lambda>r. r @ [v]) (rows df)\<rparr>)"

section \<open>Ingestor: \<open>read_powerball_csv\<close>\<close>

definition EXPECTED_WITH_POWERPLAY :: "string list" where
  "EXPECTED_WITH_POWERPLAY =
     [''Game'', ''Month'', ''Day'', ''Year'', ''Num1'', ''Num2'', ''Num3'', ''Num4'', ''Num5'',
      ''Powerball'', ''PowerPlay'']"

definition EXPECTED_WITHOUT_POWERPLAY :: "string list" where
  "EXPECTED_WITHOUT_POWERPLAY =
     [''Game'', ''Month'', ''Day'', ''Year'', ''Num1'', ''Num2'', ''Num3'', ''Num4'', ''Num5'',
      ''Powerball'']"

text \<open>
  The argument is the frame that \<open>pd.read_csv(path, header=None)\<close> returned: its
  labels are the positions and are never read, since both branches assign
  \<open>df.columns\<close> first. The assignment cannot fail, because each branch has just
  compared the width with the length of the list it assigns.
\<close>

definition read_powerball_csv :: "'v frame \<Rightarrow> error + 'v frame" where
  "read_powerball_csv df =
     (if shape1 df = 11 then
        getitem EXPECTED_WITH_POWERPLAY (df\<lparr>columns := EXPECTED_WITH_POWERPLAY\<rparr>)
      else if shape1 df = 10 then
        getitem EXPECTED_WITH_POWERPLAY
          (setitem ''PowerPlay'' None (df\<lparr>columns := EXPECTED_WITHOUT_POWERPLAY\<rparr>))
      else Inl (ValueError (shape1 df)))"

text \<open>The 11-column table that a 10-column table corresponds to: the same rows, each
  with a null PowerPlay cell on the right.\<close>

definition with_null_powerplay :: "'v frame \<Rightarrow> 'v frame" where
  "with_null_powerplay df =
     \<lparr>columns = columns df @ [''PowerPlay''], rows = map (\<lambda>r. r @ [None]) (rows df)\<rparr>"

section \<open>Transformer: \<open>build_wide\<close>\<close>

text \<open>
  \<open>pd.to_numeric(x, errors="coerce")\<close> reads a cell as a number. The reading of a
  single value is the library's and is a parameter \<open>num\<close> of the model: it answers
  \<open>NaN\<close> for a value that is not a number, \<open>Whole n\<close> for an integer and
  \<open>Fractional\<close> for any other number. A missing cell reads as \<open>NaN\<close>.
\<close>

datatype numeric = NaN | Whole int | Fractional

definition to_numeric :: "('v \<Rightarrow> numeric) \<Rightarrow> 'v option \<Rightarrow> numeric" where
  "to_numeric num c = (case c of None \<Rightarrow> NaN | Some v \<Rightarrow> num v)"

text \<open>\<open>.astype("Int64")\<close> on the result: the nullable integer column. A number that
  is not an integer cannot be cast and the library raises \<open>TypeError\<close>; the cast of a
  column is possible when \<open>castable\<close> holds of each of its cells.\<close>

definition castable :: "numeric \<Rightarrow> bool" where
  "castable n = (n \<noteq> Fractional)"

definition Int64 :: "numeric \<Rightarrow> int option" where
  "Int64 n = (case n of Whole i \<Rightarrow> Some i | _ \<Rightarrow> None)"

text \<open>
  Calendar dates. \<open>pd.to_datetime(dict(year=..., month=..., day=...), errors="coerce")\<close>
  assembles a date from the three readings and answers NaT (\<open>None\<close>) when one of
  them is not a whole number or when they name no day of the calendar. This is the
  behaviour the library documents for the call. The way the library combines the three
  numbers before it parses them, and the range of its timestamp type, narrower than the
  four-digit years, are not modelled.
\<close>

datatype date = YMD (dt_year: int) (dt_month: int) (dt_day: int)

definition leap_year :: "int \<Rightarrow> bool" where
  "leap_year y = (y mod 4 = 0 \<and> (y mod 100 \<noteq> 0 \<or> y mod 400 = 0))"

definition days_in_month :: "int \<Rightarrow> int \<Rightarrow> int" where
  "days_in_month y m =
     (if m = 2 then (if leap_year y then 29 else 28)
      else if m = 4 \<or> m = 6 \<or> m = 9 \<or> m = 11 then 30 else 31)"

definition valid_date :: "int \<Rightarrow> int \<Rightarrow> int \<Rightarrow> bool" where
  "valid_date y m d =
     (1 \<le> y \<and> y \<le> 9999 \<and> 1 \<le> m \<and> m \<le> 12 \<and> 1 \<le> d \<and> d \<le> days_in_month y m)"

fun to_datetime :: "numeric \<Rightarrow> numeric \<Rightarrow> numeric \<Rightarrow> date option" where
  "to_datetime (Whole y) (Whole m) (Whole d) =
     (if valid_date y m d then Some (YMD y m d) else None)"
| "to_datetime _ _ _ = None"

text \<open>A row of the frame that the Ingestor returns, by column name.\<close>

record 'v raw_row =
  raw_Game :: "'v option"
  raw_Month :: "'v option"
  raw_Day :: "'v option"
  raw_Year :: "'v option"
  raw_Num1 :: "'v option"
  raw_Num2 :: "'v option"
  raw_Num3 :: "'v option"
  raw_Num4 :: "'v option"
  raw_Num5 :: "'v option"
  raw_Powerball :: "'v option"
  raw_PowerPlay :: "'v option"

definition raw_row_of :: "string list \<Rightarrow> 'v option list \<Rightarrow> 'v raw_row" where
  "raw_row_of cs r =
     \<lparr>raw_Game = cell cs r ''Game'', raw_Month = cell cs r ''Month'',
      raw_Day = cell cs r ''Day'', raw_Year = cell cs r ''Year'',
      raw_Num1 = cell cs r ''Num1'', raw_Num2 = cell cs r ''Num2'',
      raw_Num3 = cell cs r ''Num3'', raw_Num4 = cell cs r ''Num4'',
      raw_Num5 = cell cs r ''Num5'', raw_Powerball = cell cs r ''Powerball'',
      raw_PowerPlay = cell cs r ''PowerPlay''\<rparr>"

text \<open>Reading the columns by name: a frame that lacks one of them makes the
  Transformer fail with a \<open>KeyError\<close> at the first column it asks for.\<close>

definition raw_rows :: "'v frame \<Rightarrow> error + 'v raw_row list" where
  "raw_rows df =
     (case find (\<lambda>c. c \<notin> set (columns df))
             [''Month'', ''Day'', ''Year'', ''Num1'', ''Num2'', ''Num3'', ''Num4'', ''Num5'',
              ''Powerball'', ''PowerPlay'', ''Game''] of
        Some c \<Rightarrow> Inl (KeyError c)
      | None \<Rightarrow> Inr (map (raw_row_of (columns df)) (rows df)))"

definition to_date :: "('v \<Rightarrow> numeric) \<Rightarrow> 'v raw_row \<Rightarrow> date option" where
  "to_date num r =
     (let month = to_numeric num (raw_Month r);
          day = to_numeric num (raw_Day r);
          year = to_numeric num (raw_Year r)
      in to_datetime year month day)"

text \<open>The typed columns of a draw: \<open>Date\<close> is a timestamp column (NaT is
  \<open>None\<close>), the seven numbers are nullable integers.\<close>

record draw =
  Date :: "date option"
  Num1 :: "int option"
  Num2 :: "int option"
  Num3 :: "int option"
  Num4 :: "int option"
  Num5 :: "int option"
  Powerball :: "int option"
  PowerPlay :: "int option"

record wide_row = draw +
  Year :: "int option"
  YearMonth :: string

text \<open>
  \<open>clean_types\<close> casts the seven numeric columns of the rows it is given, one
  column after the other; whichever column fails first, the exception is the same
  \<open>TypeError\<close>. The \<open>Game\<close> column it also tidies is not kept: no later step
  reads it and line 78 drops it, together with the raw \<open>Month\<close>, \<open>Day\<close> and
  \<open>Year\<close>.
\<close>

definition num_cols :: "'v raw_row \<Rightarrow> 'v option list" where
  "num_cols r =
     [raw_Num1 r, raw_Num2 r, raw_Num3 r, raw_Num4 r, raw_Num5 r, raw_Powerball r,
      raw_PowerPlay r]"

definition typed :: "('v \<Rightarrow> numeric) \<Rightarrow> 'v raw_row \<times> date option \<Rightarrow> draw" where
  "typed num = (\<lambda>(r, d).
     \<lparr>Date = d,
      Num1 = Int64 (to_numeric num (raw_Num1 r)),
      Num2 = Int64 (to_numeric num (raw_Num2 r)),
      Num3 = Int64 (to_numeric num (raw_Num3 r)),
      Num4 = Int64 (to_numeric num (raw_Num4 r)),
      Num5 = Int64 (to_numeric num (raw_Num5 r)),
      Powerball = Int64 (to_numeric num (raw_Powerball r)),
      PowerPlay = Int64 (to_numeric num (raw_PowerPlay r))\<rparr>)"

definition clean_types ::
  "('v \<Rightarrow> numeric) \<Rightarrow> ('v raw_row \<times> date option) list \<Rightarrow> error + draw list" where
  "clean_types num out =
     (if list_all (\<lambda>(r, d). list_all (\<lambda>c. castable (to_numeric num c)) (num_cols r)) out
      then Inr (map (typed num) out)
      else Inl TypeError)"

text \<open>Lines 70 and 71: one filter per column, in the order of the list.\<close>

definition drop_missing_numbers :: "draw list \<Rightarrow> draw list" where
  "drop_missing_numbers out =
     foldl (\<lambda>out c. filter (\<lambda>r. c r \<noteq> None) out) out
       [Num1, Num2, Num3, Num4, Num5, Powerball]"

text \<open>\<open>dt.to_period("M").astype(str)\<close>: the year on four digits, a hyphen, the
  month on two.\<close>

definition digit :: "int \<Rightarrow> char" where
  "digit n = ''0123456789'' ! nat (n mod 10)"

definition period_str :: "date \<Rightarrow> string" where
  "period_str d =
     [digit (dt_year d div 1000), digit (dt_year d div 100), digit (dt_year d div 10),
      digit (dt_year d), CHR ''-'', digit (dt_month d div 10), digit (dt_month d)]"

text \<open>Lines 74 to 78: the two helper columns, and the ten columns that are kept.\<close>

definition with_helpers :: "draw \<Rightarrow> wide_row" where
  "with_helpers r =
     \<lparr>Date = Date r, Num1 = Num1 r, Num2 = Num2 r, Num3 = Num3 r, Num4 = Num4 r,
      Num5 = Num5 r, Powerball = Powerball r, PowerPlay = PowerPlay r,
      Year = map_option dt_year (Date r),
      YearMonth = (case Date r of None \<Rightarrow> ''NaT'' | Some d \<Rightarrow> period_str d)\<rparr>"

text \<open>\<open>sort_values("Date")\<close>: ascending, NaT last. The model sorts stably; no
  property below depends on how rows of one date are ordered among themselves.\<close>

definition date_key :: "date option \<Rightarrow> nat \<times> int \<times> int \<times> int" where
  "date_key d =
     (case d of None \<Rightarrow> (1, 0, 0, 0) | Some x \<Rightarrow> (0, dt_year x, dt_month x, dt_day x))"

definition sort_values_Date :: "wide_row list \<Rightarrow> wide_row list" where
  "sort_values_Date out = sort_key (\<lambda>r. date_key (Date r)) out"

text \<open>\<open>drop_duplicates(subset=keys, keep="first")\<close>: a row is dropped when a row
  before it has the same values under the keys; missing values compare equal to one
  another there.\<close>

definition draw_key ::
  "wide_row \<Rightarrow> date option \<times> int option \<times> int option \<times> int option \<times> int option \<times>
     int option \<times> int option \<times> int option" where
  "draw_key r = (Date r, Num1 r, Num2 r, Num3 r, Num4 r, Num5 r, Powerball r, PowerPlay r)"

fun drop_duplicates :: "('a \<Rightarrow> 'k) \<Rightarrow> 'k list \<Rightarrow> 'a list \<Rightarrow> 'a list" where
  "drop_duplicates key seen [] = []"
| "drop_duplicates key seen (x # xs) =
     (if key x \<in> set seen then drop_duplicates key seen xs
      else x # drop_duplicates key (key x # seen) xs)"

definition dedupe_by_draw :: "wide_row list \<Rightarrow> wide_row list" where
  "dedupe_by_draw df = drop_duplicates draw_key [] df"

text \<open>\<open>build_wide\<close> up to and including the sort of line 79.\<close>

definition sorted_wide :: "('v \<Rightarrow> numeric) \<Rightarrow> 'v raw_row list \<Rightarrow> error + wide_row list" where
  "sorted_wide num df =
     (let out = map (\<lambda>r. (r, to_date num r)) df;
          out = filter (\<lambda>(r, d). d \<noteq> None) out
      in case clean_types num out of
           Inl e \<Rightarrow> Inl e
         | Inr out \<Rightarrow>
             (let out = drop_missing_numbers out;
                  out = map with_helpers out
              in Inr (sort_values_Date out)))"

definition build_wide :: "('v \<Rightarrow> numeric) \<Rightarrow> 'v raw_row list \<Rightarrow> error + wide_row list" where
  "build_wide num df =
     (case sorted_wide num df of
        Inl e \<Rightarrow> Inl e
      | Inr out \<Rightarrow> Inr (dedupe_by_draw out))"

section \<open>Transformer: \<open>build_long\<close>\<close>

text \<open>The \<open>Position\<close> column of the long table holds integers on the rows of the
  main balls and the text \<open>PB\<close> on the rows of the Powerball.\<close>

datatype position = PosInt int | PosStr string

record long_row =
  long_Date :: "date option"
  BallType :: string
  BallNumber :: "int option"
  Position :: position
  long_PowerPlay :: "int option"
  long_Year :: "int option"
  long_YearMonth :: string

text \<open>\<open>melt\<close>: for each value column in turn, every row of the table with the
  name of the column and its value.\<close>

definition melt ::
  "(string \<times> (wide_row \<Rightarrow> int option)) list \<Rightarrow> wide_row list \<Rightarrow>
     (wide_row \<times> string \<times> int option) list" where
  "melt value_vars wide =
     concat (map (\<lambda>(name, col). map (\<lambda>w. (w, name, col w)) wide) value_vars)"

text \<open>\<open>.str.extract(r"(\d+)").astype(int)\<close>: the first run of digits of the
  name, as an integer. Each of the five names melted has one.\<close>

definition is_digit :: "char \<Rightarrow> bool" where
  "is_digit c = (c \<in> set ''0123456789'')"

definition extract_digits :: "string \<Rightarrow> string" where
  "extract_digits s = takeWhile is_digit (dropWhile (\<lambda>c. \<not> is_digit c) s)"

definition digit_value :: "char \<Rightarrow> int" where
  "digit_value c = int (of_char c) - 48"

definition astype_int :: "string \<Rightarrow> int" where
  "astype_int s = foldl (\<lambda>a c. 10 * a + digit_value c) 0 s"

text \<open>Line 100 reads the BallNumber column as numbers and casts it to the nullable
  integer type once more; the column holds nullable integers already, and each reads as
  itself.\<close>

definition of_Int64 :: "int option \<Rightarrow> numeric" where
  "of_Int64 v = (case v of None \<Rightarrow> NaN | Some i \<Rightarrow> Whole i)"

definition build_long :: "wide_row list \<Rightarrow> long_row list" where
  "build_long wide =
     (let main = map (\<lambda>(w, name, v).
                   \<lparr>long_Date = Date w, BallType = ''Main'', BallNumber = v,
                    Position = PosInt (astype_int (extract_digits name)),
                    long_PowerPlay = PowerPlay w, long_Year = Year w,
                    long_YearMonth = YearMonth w\<rparr>)
                  (melt [(''Num1'', Num1), (''Num2'', Num2), (''Num3'', Num3),
                         (''Num4'', Num4), (''Num5'', Num5)] wide);
          pb = map (\<lambda>w.
                   \<lparr>long_Date = Date w, BallType = ''Powerball'', BallNumber = Powerball w,
                    Position = PosStr ''PB'',
                    long_PowerPlay = PowerPlay w, long_Year = Year w,
                    long_YearMonth = YearMonth w\<rparr>) wide;
          long_df = main @ pb
      in map (\<lambda>l. l\<lparr>BallNumber := Int64 (of_Int64 (BallNumber l))\<rparr>) long_df)"

text \<open>The six rows that the specification asks of one draw.\<close>

definition ball :: "wide_row \<Rightarrow> string \<Rightarrow> int option \<Rightarrow> position \<Rightarrow> long_row" where
  "ball w t n p =
     \<lparr>long_Date = Date w, BallType = t, BallNumber = n, Position = p,
      long_PowerPlay = PowerPlay w, long_Year = Year w, long_YearMonth = YearMonth w\<rparr>"

definition six_balls :: "wide_row \<Rightarrow> long_row list" where
  "six_balls w =
     [ball w ''Main'' (Num1 w) (PosInt 1), ball w ''Main'' (Num2 w) (PosInt 2),
      ball w ''Main'' (Num3 w) (PosInt 3), ball w ''Main'' (Num4 w) (PosInt 4),
      ball w ''Main'' (Num5 w) (PosInt 5), ball w ''Powerball'' (Powerball w) (PosStr ''PB'')]"

section \<open>The cleaner's \<open>main\<close>\<close>

definition data_dict :: "string frame" where
  "data_dict =
     \<lparr>columns = [''column'', ''description''],
      rows = map (\<lambda>(c, d). [Some c, Some d])
        [(''Date'', ''Draw date (YYYY-MM-DD)''),
         (''Num1'', ''First main ball''),
         (''Num2'', ''Second main ball''),
         (''Num3'', ''Third main ball''),
         (''Num4'', ''Fourth main ball''),
         (''Num5'', ''Fifth main ball''),
         (''Powerball'', ''Powerball number''),
         (''PowerPlay'', ''Power Play multiplier (may be blank)''),
         (''Year'', ''Calendar year''),
         (''YearMonth'', ''YYYY-MM period string''),
         (''BallType'', ''Main or Powerball (long format only)''),
         (''BallNumber'', ''Ball number value''),
         (''Position'', ''Position: 1..5 for main, PB for Powerball (long only)'')]\<rparr>"

text \<open>The three tables that \<open>main\<close> writes, from the frame that \<open>pd.read_csv\<close>
  returned for the input file.\<close>

definition clean_main ::
  "('v \<Rightarrow> numeric) \<Rightarrow> 'v frame \<Rightarrow> error + (wide_row list \<times> long_row list \<times> string frame)" where
  "clean_main num csv =
     (case read_powerball_csv csv of
        Inl e \<Rightarrow> Inl e
      | Inr raw \<Rightarrow>
         (case raw_rows raw of
            Inl e \<Rightarrow> Inl e
          | Inr rs \<Rightarrow>
             (case build_wide num rs of
                Inl e \<Rightarrow> Inl e
              | Inr wide \<Rightarrow> Inr (wide, build_long wide, data_dict))))"

text \<open>The column names that section 3 of the specification documents: the fields of
  the raw record, of the wide record and of the long record.\<close>

definition documented_columns :: "string list" where
  "documented_columns =
     [''Game'', ''Month'', ''Day'', ''Year'', ''Num1'', ''Num2'', ''Num3'', ''Num4'', ''Num5'',
      ''Powerball'', ''PowerPlay'', ''Date'', ''YearMonth'', ''BallType'', ''BallNumber'',
      ''Position'']"

section \<open>Loader: \<open>load_to_sqlite\<close>\<close>

definition LONG_COLS :: "string list" where
  "LONG_COLS =
     [''Date'', ''BallType'', ''BallNumber'', ''Position'', ''PowerPlay'', ''Year'', ''YearMonth'']"

definition WIDE_COLS :: "string list" where
  "WIDE_COLS =
     [''Date'', ''Num1'', ''Num2'', ''Num3'', ''Num4'', ''Num5'', ''Powerball'', ''PowerPlay'',
      ''Year'', ''YearMonth'']"

datatype sqltype = TEXT | INTEGER

text \<open>The schema is a Python dict, read in insertion order: an association list.\<close>

definition infer_schema :: "string \<Rightarrow> error + ((string \<times> sqltype) list \<times> string list)" where
  "infer_schema schema =
     (if schema = ''long'' then
        Inr ([(''Date'', TEXT), (''BallType'', TEXT), (''BallNumber'', INTEGER),
              (''Position'', TEXT), (''PowerPlay'', INTEGER), (''Year'', INTEGER),
              (''YearMonth'', TEXT)], LONG_COLS)
      else if schema = ''wide'' then
        Inr ([(''Date'', TEXT), (''Num1'', INTEGER), (''Num2'', INTEGER), (''Num3'', INTEGER),
              (''Num4'', INTEGER), (''Num5'', INTEGER), (''Powerball'', INTEGER),
              (''PowerPlay'', INTEGER), (''Year'', INTEGER), (''YearMonth'', TEXT)], WIDE_COLS)
      else Inl (UnknownSchema schema))"

text \<open>A cell of the Loader's frame: text as read from the file, or an integer once
  its column has been cast.\<close>

datatype pyval = PyInt int | PyStr string

function str_nat :: "nat \<Rightarrow> string" where
  "str_nat n = (if n < 10 then [digit (int n)] else str_nat (n div 10) @ [digit (int n)])"
  by pat_completeness auto
termination
  by (relation "measure id") auto

definition str_int :: "int \<Rightarrow> string" where
  "str_int i = (if i < 0 then CHR ''-'' # str_nat (nat (- i)) else str_nat (nat i))"

text \<open>\<open>str(v)\<close> of a cell, as \<open>astype(str)\<close> applies it: a missing value
  becomes the text \<open>nan\<close>.\<close>

definition astype_str :: "pyval option \<Rightarrow> pyval option" where
  "astype_str c =
     (case c of None \<Rightarrow> Some (PyStr ''nan'')
      | Some (PyStr s) \<Rightarrow> Some (PyStr s)
      | Some (PyInt i) \<Rightarrow> Some (PyStr (str_int i)))"

definition py_numeric :: "(string \<Rightarrow> numeric) \<Rightarrow> pyval option \<Rightarrow> numeric" where
  "py_numeric num c =
     (case c of None \<Rightarrow> NaN | Some (PyInt i) \<Rightarrow> Whole i | Some (PyStr s) \<Rightarrow> num s)"

fun coerce_types ::
  "(string \<Rightarrow> numeric) \<Rightarrow> pyval frame \<Rightarrow> (string \<times> sqltype) list \<Rightarrow> error + pyval frame" where
  "coerce_types num out [] = Inr out"
| "coerce_types num out ((col, typ) # schema) =
     (if col \<notin> set (columns out) then Inl (ColumnNotFound col)
      else if typ = INTEGER then
        (if list_all (\<lambda>r. castable (py_numeric num (cell (columns out) r col))) (rows out)
         then coerce_types num
                (map_column col (\<lambda>c. map_option PyInt (Int64 (py_numeric num c))) out) schema
         else Inl TypeError)
      else coerce_types num (map_column col astype_str out) schema)"

text \<open>
  The store: the tables of the SQLite database by name, each with its declared columns
  and its rows. Column names are matched as written and a value is stored as it is
  bound; the Loader binds integers and nulls to its INTEGER columns and text to its
  TEXT columns.
\<close>

datatype sqlval = NULL | SqlInt int | SqlText string

record table =
  tcols :: "(string \<times> sqltype) list"
  trows :: "sqlval list list"

type_synonym store = "string \<Rightarrow> table option"

definition create_table :: "store \<Rightarrow> string \<Rightarrow> (string \<times> sqltype) list \<Rightarrow> bool \<Rightarrow> store" where
  "create_table conn tbl schema replace =
     (let conn = (if replace then conn(tbl := None) else conn)
      in case conn tbl of
           None \<Rightarrow> conn(tbl \<mapsto> \<lparr>tcols = schema, trows = []\<rparr>)
         | Some t \<Rightarrow> conn)"

definition to_sql :: "pyval option \<Rightarrow> sqlval" where
  "to_sql v = (case v of None \<Rightarrow> NULL | Some (PyInt i) \<Rightarrow> SqlInt i | Some (PyStr s) \<Rightarrow> SqlText s)"

text \<open>\<open>INSERT INTO tbl (cols) VALUES (?, ...)\<close> for every row: the statement names
  its columns, so each value goes to the column of its name and a column of the table
  that the statement does not name receives NULL. A table that does not exist, or that
  lacks a named column, is an \<open>OperationalError\<close> and nothing is inserted.\<close>

definition bind_rows ::
  "(string \<times> sqltype) list \<Rightarrow> string list \<Rightarrow> pyval frame \<Rightarrow> sqlval list list" where
  "bind_rows tcs ordered_cols sel =
     map (\<lambda>r. map (\<lambda>(c, ty). to_sql (cell ordered_cols r c)) tcs) (rows sel)"

definition insert_rows :: "store \<Rightarrow> string \<Rightarrow> pyval frame \<Rightarrow> string list \<Rightarrow> error + store" where
  "insert_rows conn tbl df ordered_cols =
     (case getitem ordered_cols df of
        Inl e \<Rightarrow> Inl e
      | Inr sel \<Rightarrow>
         (case conn tbl of
            None \<Rightarrow> Inl (OperationalError ''no such table'')
          | Some t \<Rightarrow>
             if list_all (\<lambda>c. c \<in> set (map fst (tcols t))) ordered_cols then
               Inr (conn(tbl \<mapsto> t\<lparr>trows := trows t @ bind_rows (tcols t) ordered_cols sel\<rparr>))
             else Inl (OperationalError ''no such column'')))"

text \<open>The command line: \<open>--table\<close>, \<open>--schema\<close> and \<open>--replace\<close>.\<close>

record args =
  arg_table :: string
  arg_schema :: string
  arg_replace :: bool

text \<open>
  \<open>pd.read_csv(csv_path, dtype=str, ...)\<close>: every cell is text, or missing where the
  field is one of the tokens read as NA. The file is given as the table of its fields,
  labelled by its header line.
\<close>

definition read_csv_str :: "string frame \<Rightarrow> pyval frame" where
  "read_csv_str file =
     \<lparr>columns = columns file, rows = map (map (map_option PyStr)) (rows file)\<rparr>"

text \<open>
  \<open>main\<close>. The file is \<open>None\<close> when the path does not exist. The result is the
  error raised, if any, and the store as the run leaves it.
\<close>

definition load_main ::
  "(string \<Rightarrow> numeric) \<Rightarrow> args \<Rightarrow> string frame option \<Rightarrow> store \<Rightarrow> error option \<times> store" where
  "load_main num args csv conn =
     (case csv of
        None \<Rightarrow> (Some CsvNotFound, conn)
      | Some file \<Rightarrow>
         (case infer_schema (arg_schema args) of
            Inl e \<Rightarrow> (Some e, conn)
          | Inr (schema, ordered_cols) \<Rightarrow>
             (let df = read_csv_str file;
                  missing = filter (\<lambda>c. c \<notin> set (columns df)) ordered_cols
              in if missing \<noteq> [] then (Some (MissingColumns missing), conn)
                 else
                   (case getitem ordered_cols df of
                      Inl e \<Rightarrow> (Some e, conn)
                    | Inr df \<Rightarrow>
                       (case coerce_types num df schema of
                          Inl e \<Rightarrow> (Some e, conn)
                        | Inr df \<Rightarrow>
                           (let conn = create_table conn (arg_table args) schema
                                         (arg_replace args)
                            in case insert_rows conn (arg_table args) df ordered_cols of
                                 Inl e \<Rightarrow> (Some e, conn)
                               | Inr conn \<Rightarrow> (None, conn)))))))"

text \<open>The number of rows of a table of the store; a table that does not exist has
  none.\<close>

definition row_count :: "store \<Rightarrow> string \<Rightarrow> nat" where
  "row_count conn tbl = (case conn tbl of None \<Rightarrow> 0 | Some t \<Rightarrow> length (trows t))"

section \<open>Notions used to state the properties\<close>

text \<open>The Month, Day and Year of a row all read as whole numbers and name a day of the
  calendar.\<close>

definition date_ok :: "('v \<Rightarrow> numeric) \<Rightarrow> 'v raw_row \<Rightarrow> bool" where
  "date_ok num r =
     (case (to_numeric num (raw_Year r), to_numeric num (raw_Month r),
            to_numeric num (raw_Day r)) of
        (Whole y, Whole m, Whole d) \<Rightarrow> valid_date y m d
      | _ \<Rightarrow> False)"

definition six_numbers :: "'v raw_row \<Rightarrow> 'v option list" where
  "six_numbers r =
     [raw_Num1 r, raw_Num2 r, raw_Num3 r, raw_Num4 r, raw_Num5 r, raw_Powerball r]"


text \<open>The rows that pass both filters of \<open>build_wide\<close>, and the wide row that
  such a row becomes.\<close>

definition survives :: "('v \<Rightarrow> numeric) \<Rightarrow> 'v raw_row \<Rightarrow> bool" where
  "survives num r =
     (date_ok num r \<and> list_all (\<lambda>c. Int64 (to_numeric num c) \<noteq> None) (six_numbers r))"

definition wide_of :: "('v \<Rightarrow> numeric) \<Rightarrow> 'v raw_row \<Rightarrow> wide_row" where
  "wide_of num r = with_helpers (typed num (r, to_date num r))"

section \<open>Example inputs\<close>

text \<open>A reader for the examples: a run of digits is the integer it writes, digits with
  a decimal point are a number that is not whole (no example has a zero fraction), and
  anything else is not a number.\<close>

definition decimal :: "string \<Rightarrow> numeric" where
  "decimal s =
     (if s \<noteq> [] \<and> list_all is_digit s then Whole (astype_int s)
      else if s \<noteq> [] \<and> list_all (\<lambda>c. is_digit c \<or> c = CHR ''.'') s then Fractional
      else NaN)"

definition three_columns :: "string frame" where
  "three_columns = \<lparr>columns = [''c0'', ''c1'', ''c2''], rows = [[Some ''PB'', None, Some ''3'']]\<rparr>"

definition ten_columns :: "string frame" where
  "ten_columns =
     \<lparr>columns = [''c0'', ''c1'', ''c2'', ''c3'', ''c4'', ''c5'', ''c6'', ''c7'', ''c8'', ''c9''],
      rows = [[Some ''PB'', Some ''01'', Some ''05'', Some ''2010'', Some ''3'', Some ''14'',
               Some ''22'', Some ''35'', Some ''41'', Some ''9'']]\<rparr>"

definition eleven_columns :: "string frame" where
  "eleven_columns =
     \<lparr>columns = [''c0'', ''c1'', ''c2'', ''c3'', ''c4'', ''c5'', ''c6'', ''c7'', ''c8'', ''c9'', ''c10''],
      rows = [[Some ''PB'', Some ''01'', Some ''05'', Some ''2020'', Some ''3'', Some ''14'',
               Some ''22'', Some ''35'', Some ''41'', Some ''9'', Some ''2'']]\<rparr>"

text \<open>Rows of the Ingestor's frame for the examples, written as the fields of a
  line; an empty field is a missing cell.\<close>

definition fields :: "string list \<Rightarrow> string raw_row" where
  "fields xs =
     raw_row_of EXPECTED_WITH_POWERPLAY (map (\<lambda>s. if s = [] then None else Some s) xs)"

definition example_draws :: "string raw_row list" where
  "example_draws =
     [fields [''PB'', ''01'', ''05'', ''2020'', ''3'', ''14'', ''22'', ''35'', ''41'', ''9'', ''2''],
      fields [''PB'', ''13'', ''05'', ''2020'', ''3'', ''14'', ''22'', ''35'', ''41'', ''9'', ''2''],
      fields [''PB'', ''02'', ''29'', ''2016'', ''7'', ''11'', ''19'', ''23'', ''31'', ''12'', ''''],
      fields [''PB'', ''01'', ''05'', ''2020'', ''3'', ''14'', ''22'', ''35'', ''41'', ''9'', ''2''],
      fields [''PB'', ''02'', ''29'', ''2016'', ''7'', ''11'', ''19'', ''23'', ''31'', ''12'', ''''],
      fields [''PB'', ''03'', ''01'', ''2018'', ''7'', ''x'', ''19'', ''23'', ''31'', ''12'', ''2''],
      fields [''PB'', ''xx'', ''01'', ''2018'', ''7'', ''11'', ''19'', ''23'', ''31'', ''12'', ''2.5'']]"


definition leap_day_draw :: wide_row where
  "leap_day_draw =
     \<lparr>Date = Some (YMD 2016 2 29), Num1 = Some 7, Num2 = Some 11, Num3 = Some 19,
      Num4 = Some 23, Num5 = Some 31, Powerball = Some 12, PowerPlay = None,
      Year = Some 2016, YearMonth = ''2016-02''\<rparr>"

definition january_draw :: wide_row where
  "january_draw =
     \<lparr>Date = Some (YMD 2020 1 5), Num1 = Some 3, Num2 = Some 14, Num3 = Some 22,
      Num4 = Some 35, Num5 = Some 41, Powerball = Some 9, PowerPlay = Some 2,
      Year = Some 2020, YearMonth = ''2020-01''\<rparr>"

definition example_wide :: "wide_row list" where
  "example_wide = [leap_day_draw, january_draw]"

text \<open>Cleaned files for the examples of the Loader: one with a column the schema does
  not know and its columns in another order, one that lacks two expected columns; the
  command line of a load into \<open>draws_wide\<close>; the store after one load and after
  two loads of the first file into an empty database.\<close>

definition example_wide_csv :: "string frame" where
  "example_wide_csv =
     \<lparr>columns = ''Note'' # rev WIDE_COLS,
      rows = [[Some ''kept'', Some ''2016-02'', Some ''2016'', None, Some ''12'', Some ''31'',
               Some ''23'', Some ''19'', Some ''11'', Some ''7'', Some ''2016-02-29''],
              [None, Some ''2020-01'', Some ''2020'', Some ''2'', Some ''9'', Some ''41'',
               Some ''35'', Some ''22'', Some ''14'', Some ''3'', Some ''2020-01-05'']]\<rparr>"

definition wide_args :: "bool \<Rightarrow> args" where
  "wide_args r = \<lparr>arg_table = ''draws_wide'', arg_schema = ''wide'', arg_replace = r\<rparr>"

definition load_once :: "bool \<Rightarrow> store" where
  "load_once r = snd (load_main decimal (wide_args r) (Some example_wide_csv) Map.empty)"

definition load_twice :: "bool \<Rightarrow> store" where
  "load_twice r = snd (load_main decimal (wide_args r) (Some example_wide_csv) (load_once r))"


section \<open>Properties of the Ingestor\<close>

lemma cell_self:
  "distinct cs \<Longrightarrow> length r = length cs \<Longrightarrow> map (cell cs r) cs = r"
proof (induction cs arbitrary: r)
  case Nil
  then show ?case by simp
next
  case (Cons c cs)
  then obtain v vs where r: "r = v # vs" by (cases r) auto
  have "map (\<lambda>k. if c = k then v else cell cs vs k) cs = map (cell cs vs) cs"
    using Cons.prems(1) by (auto intro!: map_cong)
  also have "\<dots> = vs"
    using Cons r by simp
  finally show ?case
    by (simp add: r)
qed

lemma getitem_self:
  assumes "distinct (columns df)" "list_all (\<lambda>r. length r = length (columns df)) (rows df)"
  shows "getitem (columns df) df = Inr \<lparr>columns = columns df, rows = rows df\<rparr>"
proof -
  have "find (\<lambda>c. c \<notin> set (columns df)) (columns df) = None"
    by (simp add: find_None_iff)
  moreover have "map (\<lambda>r. map (cell (columns df) r) (columns df)) (rows df) = rows df"
    using assms by (induction "rows df") (auto simp: list_all_iff cell_self intro: map_idI)
  ultimately show ?thesis by (simp add: getitem_def take_columns_def)
qed

lemma distinct_EXPECTED: "distinct EXPECTED_WITH_POWERPLAY"
  by (simp add: EXPECTED_WITH_POWERPLAY_def)

lemma length_EXPECTED: "length EXPECTED_WITH_POWERPLAY = 11"
  by (simp add: EXPECTED_WITH_POWERPLAY_def)

lemma EXPECTED_append:
  "EXPECTED_WITHOUT_POWERPLAY @ [''PowerPlay''] = EXPECTED_WITH_POWERPLAY"
  by (simp add: EXPECTED_WITH_POWERPLAY_def EXPECTED_WITHOUT_POWERPLAY_def)

lemma PowerPlay_not_in_WITHOUT: "''PowerPlay'' \<notin> set EXPECTED_WITHOUT_POWERPLAY"
  by (simp add: EXPECTED_WITHOUT_POWERPLAY_def)

lemma read_11:
  assumes "shape1 df = 11" "list_all (\<lambda>r. length r = 11) (rows df)"
  shows "read_powerball_csv df = Inr \<lparr>columns = EXPECTED_WITH_POWERPLAY, rows = rows df\<rparr>"
proof -
  let ?d = "df\<lparr>columns := EXPECTED_WITH_POWERPLAY\<rparr>"
  have "getitem (columns ?d) ?d = Inr \<lparr>columns = columns ?d, rows = rows ?d\<rparr>"
    by (rule getitem_self) (use assms in \<open>simp_all add: distinct_EXPECTED length_EXPECTED\<close>)
  then show ?thesis using assms(1) by (simp add: read_powerball_csv_def)
qed

lemma read_10:
  assumes "shape1 df = 10" "list_all (\<lambda>r. length r = 10) (rows df)"
  shows "read_powerball_csv df =
           Inr \<lparr>columns = EXPECTED_WITH_POWERPLAY, rows = map (\<lambda>r. r @ [None]) (rows df)\<rparr>"
proof -
  let ?d = "setitem ''PowerPlay'' None (df\<lparr>columns := EXPECTED_WITHOUT_POWERPLAY\<rparr>)"
  have cols: "columns ?d = EXPECTED_WITH_POWERPLAY"
    and rws: "rows ?d = map (\<lambda>r. r @ [None]) (rows df)"
    using PowerPlay_not_in_WITHOUT by (simp_all add: setitem_def EXPECTED_append)
  have "list_all (\<lambda>r. length r = length (columns ?d)) (rows ?d)"
    using assms(2) unfolding cols rws by (simp add: list_all_iff length_EXPECTED)
  then have "getitem (columns ?d) ?d = Inr \<lparr>columns = columns ?d, rows = rows ?d\<rparr>"
    by (intro getitem_self) (simp_all add: cols distinct_EXPECTED)
  then show ?thesis using assms(1) unfolding cols rws by (simp add: read_powerball_csv_def)
qed

lemma read_width_10_or_11:
  assumes "shape1 df = 10 \<or> shape1 df = 11"
  shows "\<exists>out. read_powerball_csv df = Inr out \<and> columns out = EXPECTED_WITH_POWERPLAY"
proof -
  have "getitem EXPECTED_WITH_POWERPLAY d =
          Inr \<lparr>columns = EXPECTED_WITH_POWERPLAY,
               rows = map (\<lambda>r. map (cell (columns d) r) EXPECTED_WITH_POWERPLAY) (rows d)\<rparr>"
    if "columns d = EXPECTED_WITH_POWERPLAY" for d :: "'a frame"
    using that by (simp add: getitem_def take_columns_def find_None_iff [THEN iffD2])
  moreover have "columns (setitem ''PowerPlay'' None (df\<lparr>columns := EXPECTED_WITHOUT_POWERPLAY\<rparr>))
        = EXPECTED_WITH_POWERPLAY"
    using PowerPlay_not_in_WITHOUT by (simp add: setitem_def EXPECTED_append)
  ultimately show ?thesis
    using assms by (auto simp: read_powerball_csv_def)
qed

text \<open>
  C7. The Ingestor fails if and only if the width of the table is neither 10 nor 11; the
  only error it raises is the one that reports the unexpected number of columns, and it
  then returns no table. For the widths 10 and 11 it returns a table.
\<close>

theorem unexpected_column_count_iff:
  "((\<exists>e. read_powerball_csv df = Inl e) \<longleftrightarrow> (shape1 df \<noteq> 10 \<and> shape1 df \<noteq> 11)) \<and>
   (\<forall>e. read_powerball_csv df = Inl e \<longrightarrow> e = ValueError (shape1 df)) \<and>
   (shape1 df = 10 \<or> shape1 df = 11 \<longrightarrow> (\<exists>out. read_powerball_csv df = Inr out))"
proof -
  have a: "read_powerball_csv df = Inl (ValueError (shape1 df))"
    if "shape1 df \<noteq> 10" "shape1 df \<noteq> 11"
    using that by (simp add: read_powerball_csv_def)
  have b: "\<exists>out. read_powerball_csv df = Inr out" if "shape1 df = 10 \<or> shape1 df = 11"
    using read_width_10_or_11 [OF that] by blast
  show ?thesis
    using a b by (metis Inl_Inr_False sum.inject(1))
qed

theorem unexpected_column_count_witness:
  "read_powerball_csv three_columns = Inl (ValueError 3) \<and>
   (\<exists>out. read_powerball_csv ten_columns = Inr out)"
proof -
  have s3: "shape1 three_columns = 3"
    by (simp add: shape1_def three_columns_def)
  have s10: "shape1 ten_columns = 10"
    by (simp add: shape1_def ten_columns_def)
  show ?thesis
    using unexpected_column_count_iff [of three_columns]
      unexpected_column_count_iff [of ten_columns]
    unfolding s3 s10 by auto
qed

text \<open>
  C4. A well-formed table of 11 columns comes out with the same rows under the eleven
  fixed labels, in their fixed order. A well-formed table of 10 columns comes out as the
  11-column table does that has the same rows, each with a null PowerPlay cell added on
  the right.
\<close>

theorem ingestor_preserves_values_and_order:
  "(wf_frame df \<and> shape1 df = 11 \<longrightarrow>
      read_powerball_csv df = Inr \<lparr>columns = EXPECTED_WITH_POWERPLAY, rows = rows df\<rparr>) \<and>
   (wf_frame df \<and> shape1 df = 10 \<longrightarrow>
      shape1 (with_null_powerplay df) = 11 \<and>
      list_all (\<lambda>r. length r = 11 \<and> last r = None) (rows (with_null_powerplay df)) \<and>
      map butlast (rows (with_null_powerplay df)) = rows df \<and>
      read_powerball_csv df = read_powerball_csv (with_null_powerplay df) \<and>
      read_powerball_csv df =
        Inr \<lparr>columns = EXPECTED_WITH_POWERPLAY, rows = rows (with_null_powerplay df)\<rparr>)"
proof (intro conjI impI)
  assume "wf_frame df \<and> shape1 df = 11"
  then show "read_powerball_csv df = Inr \<lparr>columns = EXPECTED_WITH_POWERPLAY, rows = rows df\<rparr>"
    by (intro read_11) (auto simp: wf_frame_def shape1_def)
next
  assume a: "wf_frame df \<and> shape1 df = 10"
  let ?e = "with_null_powerplay df"
  have len: "list_all (\<lambda>r. length r = 10) (rows df)"
    using a by (auto simp: wf_frame_def shape1_def)
  show s: "shape1 ?e = 11"
    using a by (simp add: shape1_def with_null_powerplay_def)
  show l: "list_all (\<lambda>r. length r = 11 \<and> last r = None) (rows ?e)"
    using len by (simp add: with_null_powerplay_def list_all_iff)
  show "map butlast (rows ?e) = rows df"
    by (simp add: with_null_powerplay_def comp_def)
  have r10: "read_powerball_csv df =
      Inr \<lparr>columns = EXPECTED_WITH_POWERPLAY, rows = map (\<lambda>r. r @ [None]) (rows df)\<rparr>"
    using a len by (intro read_10) simp_all
  then show "read_powerball_csv df =
      Inr \<lparr>columns = EXPECTED_WITH_POWERPLAY, rows = rows ?e\<rparr>"
    by (simp add: with_null_powerplay_def)
  have "read_powerball_csv ?e = Inr \<lparr>columns = EXPECTED_WITH_POWERPLAY, rows = rows ?e\<rparr>"
    using s l by (intro read_11) (simp_all add: list_all_iff)
  then show "read_powerball_csv df = read_powerball_csv ?e"
    using r10 by (simp add: with_null_powerplay_def)
qed

theorem ingestor_preserves_witness:
  "read_powerball_csv eleven_columns =
     Inr \<lparr>columns = EXPECTED_WITH_POWERPLAY, rows = rows eleven_columns\<rparr> \<and>
   read_powerball_csv ten_columns = read_powerball_csv (with_null_powerplay ten_columns) \<and>
   read_powerball_csv ten_columns =
     Inr \<lparr>columns = EXPECTED_WITH_POWERPLAY,
          rows = [[Some ''PB'', Some ''01'', Some ''05'', Some ''2010'', Some ''3'', Some ''14'',
                   Some ''22'', Some ''35'', Some ''41'', Some ''9'', None]]\<rparr>"
proof -
  have w11: "wf_frame eleven_columns \<and> shape1 eleven_columns = 11"
    by (simp add: wf_frame_def shape1_def eleven_columns_def)
  have w10: "wf_frame ten_columns \<and> shape1 ten_columns = 10"
    by (simp add: wf_frame_def shape1_def ten_columns_def)
  have r: "rows (with_null_powerplay ten_columns) =
     [[Some ''PB'', Some ''01'', Some ''05'', Some ''2010'', Some ''3'', Some ''14'',
       Some ''22'', Some ''35'', Some ''41'', Some ''9'', None]]"
    by (simp add: with_null_powerplay_def ten_columns_def)
  have a: "read_powerball_csv eleven_columns =
      Inr \<lparr>columns = EXPECTED_WITH_POWERPLAY, rows = rows eleven_columns\<rparr>"
    using ingestor_preserves_values_and_order [of eleven_columns] w11 by simp
  have b: "read_powerball_csv ten_columns = read_powerball_csv (with_null_powerplay ten_columns)"
    and c: "read_powerball_csv ten_columns =
      Inr \<lparr>columns = EXPECTED_WITH_POWERPLAY, rows = rows (with_null_powerplay ten_columns)\<rparr>"
    using ingestor_preserves_values_and_order [of ten_columns] w10 by blast+
  show ?thesis
    using a b c [unfolded r] by (intro conjI)
qed

section \<open>Properties of the Transformer\<close>

lemma date_ok_iff: "date_ok num r \<longleftrightarrow> to_date num r \<noteq> None"
  by (auto simp: to_date_def date_ok_def split: numeric.splits)


lemma drop_missing_numbers_filter:
  "drop_missing_numbers out =
     filter (\<lambda>r. Num1 r \<noteq> None \<and> Num2 r \<noteq> None \<and> Num3 r \<noteq> None \<and> Num4 r \<noteq> None \<and>
                 Num5 r \<noteq> None \<and> Powerball r \<noteq> None) out"
  by (simp add: drop_missing_numbers_def conj_commute conj_left_commute cong: conj_cong)

lemma kept_rows:
  "map with_helpers (drop_missing_numbers (map (typed num)
       (filter (\<lambda>(r, d). d \<noteq> None) (map (\<lambda>r. (r, to_date num r)) df)))) =
   map (wide_of num) (filter (survives num) df)"
  by (induction df)
     (simp_all add: drop_missing_numbers_filter wide_of_def survives_def six_numbers_def
        typed_def date_ok_iff)

lemma drop_duplicates_filter:
  "filter (\<lambda>x. key x = k) (drop_duplicates key seen xs) =
     (if k \<in> set seen then []
      else (case find (\<lambda>x. key x = k) xs of None \<Rightarrow> [] | Some x \<Rightarrow> [x]))"
  by (induction xs arbitrary: seen) auto

lemma set_drop_duplicates: "set (drop_duplicates key seen xs) \<subseteq> set xs"
  by (induction xs arbitrary: seen) auto

lemma sorted_wide_cases:
  "sorted_wide num df =
     (if list_all (\<lambda>r. date_ok num r \<longrightarrow> list_all (\<lambda>c. castable (to_numeric num c)) (num_cols r)) df
      then Inr (sort_values_Date (map (wide_of num) (filter (survives num) df)))
      else Inl TypeError)"
proof -
  have "list_all (\<lambda>(r, d). list_all (\<lambda>c. castable (to_numeric num c)) (num_cols r))
          (filter (\<lambda>(r, d). d \<noteq> None) (map (\<lambda>r. (r, to_date num r)) df)) =
        list_all (\<lambda>r. date_ok num r \<longrightarrow> list_all (\<lambda>c. castable (to_numeric num c)) (num_cols r)) df"
    by (induction df) (simp_all add: date_ok_iff)
  then show ?thesis
    by (simp add: sorted_wide_def clean_types_def kept_rows del: not_None_eq)
qed

lemma build_wide_cases:
  "build_wide num df =
     (if list_all (\<lambda>r. date_ok num r \<longrightarrow> list_all (\<lambda>c. castable (to_numeric num c)) (num_cols r)) df
      then Inr (dedupe_by_draw (sort_values_Date (map (wide_of num) (filter (survives num) df))))
      else Inl TypeError)"
  by (simp add: build_wide_def sorted_wide_cases)

lemma draw_key_wide_of:
  "draw_key (wide_of num a) = draw_key (wide_of num b) \<Longrightarrow> wide_of num a = wide_of num b"
  by (simp add: draw_key_def wide_of_def with_helpers_def typed_def)

lemma find_key_in_set:
  assumes "x \<in> set xs"
  shows "\<exists>y. find (\<lambda>w. key w = key x) xs = Some y \<and> y \<in> set xs \<and> key y = key x"
proof (cases "find (\<lambda>w. key w = key x) xs")
  case None
  then show ?thesis using assms by (auto simp: find_None_iff)
next
  case (Some y)
  then show ?thesis by (auto simp: find_Some_iff)
qed

lemma set_sort_values_Date: "set (sort_values_Date xs) = set xs"
  by (simp add: sort_values_Date_def)

lemma sorted_sort_values_Date: "sorted (map (\<lambda>r. date_key (Date r)) (sort_values_Date xs))"
  by (simp add: sort_values_Date_def)

lemma dedupe_filter:
  "filter (\<lambda>w. draw_key w = k) (dedupe_by_draw df) =
     (case find (\<lambda>w. draw_key w = k) df of None \<Rightarrow> [] | Some x \<Rightarrow> [x])"
  by (simp add: dedupe_by_draw_def drop_duplicates_filter)

lemma set_dedupe_subset: "set (dedupe_by_draw df) \<subseteq> set df"
  by (simp add: dedupe_by_draw_def set_drop_duplicates)

lemma dedupe_keeps:
  assumes "x \<in> set df" "\<And>y. y \<in> set df \<Longrightarrow> draw_key y = draw_key x \<Longrightarrow> y = x"
  shows "filter (\<lambda>w. draw_key w = draw_key x) (dedupe_by_draw df) = [x]"
proof -
  obtain y where "find (\<lambda>w. draw_key w = draw_key x) df = Some y" "y \<in> set df"
    "draw_key y = draw_key x"
    using find_key_in_set [OF assms(1), of draw_key] by blast
  then show ?thesis using assms(2) by (simp add: dedupe_filter)
qed

lemma survives_numbers:
  "survives num r \<Longrightarrow>
     Num1 (wide_of num r) \<noteq> None \<and> Num2 (wide_of num r) \<noteq> None \<and> Num3 (wide_of num r) \<noteq> None \<and>
     Num4 (wide_of num r) \<noteq> None \<and> Num5 (wide_of num r) \<noteq> None \<and> Powerball (wide_of num r) \<noteq> None"
  by (simp add: survives_def six_numbers_def wide_of_def with_helpers_def typed_def
      del: not_None_eq)


lemma build_wide_rows:
  assumes "build_wide num df = Inr wide"
  shows "set wide = wide_of num ` {r \<in> set df. survives num r}"
proof -
  let ?out = "sort_values_Date (map (wide_of num) (filter (survives num) df))"
  have w: "wide = dedupe_by_draw ?out"
    using assms by (simp add: build_wide_cases split: if_splits)
  have out: "set ?out = wide_of num ` {r \<in> set df. survives num r}"
    by (simp add: set_sort_values_Date)
  have "x \<in> set (dedupe_by_draw ?out)" if "x \<in> set ?out" for x
  proof -
    have "filter (\<lambda>w. draw_key w = draw_key x) (dedupe_by_draw ?out) = [x]"
      using that by (intro dedupe_keeps) (auto simp: set_sort_values_Date dest: draw_key_wide_of)
    then have "x \<in> set (filter (\<lambda>w. draw_key w = draw_key x) (dedupe_by_draw ?out))"
      by simp
    then show ?thesis by simp
  qed
  then have "set (dedupe_by_draw ?out) = set ?out"
    using set_dedupe_subset [of ?out] by blast
  then show ?thesis using w out by simp
qed







lemma build_wide_example: "build_wide decimal example_draws = Inr example_wide"
  by code_simp

lemma sorted_wide_example:
  "sorted_wide decimal example_draws =
     Inr [leap_day_draw, leap_day_draw, january_draw, january_draw]"
  by code_simp


lemma sorted_wide_Inr:
  assumes "sorted_wide num df = Inr out"
  shows "out = sort_values_Date (map (wide_of num) (filter (survives num) df))"
  using assms by (simp add: sorted_wide_cases split: if_splits)

text \<open>
  C1. Let \<open>out\<close> be the table of \<open>build_wide\<close> after the sort of line 79: it is
  sorted by Date and holds the rows that passed the filters, each as derived and
  coerced. The wide output is \<open>dedupe_by_draw out\<close>, so deduplication comes after the
  sort. For every two input rows that pass the filters and are equal on (Date, Num1 to
  Num5, Powerball, PowerPlay) once derived and coerced, the wide output has exactly one
  row with that key, and it is the first row with that key in \<open>out\<close>.
\<close>

theorem duplicates_keep_first_in_sort_order:
  assumes "sorted_wide num df = Inr out"
  shows "build_wide num df = Inr (dedupe_by_draw out) \<and>
         sorted (map (\<lambda>r. date_key (Date r)) out) \<and>
         mset out = mset (map (wide_of num) (filter (survives num) df)) \<and>
         (\<forall>a\<in>set df. \<forall>b\<in>set df.
            survives num a \<and> survives num b \<and>
            draw_key (wide_of num a) = draw_key (wide_of num b) \<longrightarrow>
            (\<exists>first.
               find (\<lambda>w. draw_key w = draw_key (wide_of num a)) out = Some first \<and>
               filter (\<lambda>w. draw_key w = draw_key (wide_of num a)) (dedupe_by_draw out) = [first] \<and>
               first = wide_of num a \<and> first = wide_of num b))"
proof (intro conjI ballI impI)
  note out = sorted_wide_Inr [OF assms]
  show "build_wide num df = Inr (dedupe_by_draw out)"
    using assms by (simp add: build_wide_def)
  show "sorted (map (\<lambda>r. date_key (Date r)) out)"
    unfolding out by (rule sorted_sort_values_Date)
  show "mset out = mset (map (wide_of num) (filter (survives num) df))"
    unfolding out by (simp add: sort_values_Date_def)
  fix a b
  assume a: "a \<in> set df" and b: "b \<in> set df"
    and h: "survives num a \<and> survives num b \<and>
            draw_key (wide_of num a) = draw_key (wide_of num b)"
  have mem: "wide_of num a \<in> set out"
    unfolding out using a h by (simp add: set_sort_values_Date)
  have uniq: "y = wide_of num a" if "y \<in> set out" "draw_key y = draw_key (wide_of num a)" for y
    using that unfolding out by (auto simp: set_sort_values_Date dest: draw_key_wide_of)
  obtain y where y: "find (\<lambda>w. draw_key w = draw_key (wide_of num a)) out = Some y"
    "y \<in> set out" "draw_key y = draw_key (wide_of num a)"
    using find_key_in_set [OF mem, of draw_key] by blast
  have ya: "y = wide_of num a"
    using uniq y(2,3) by blast
  have "filter (\<lambda>w. draw_key w = draw_key (wide_of num a)) (dedupe_by_draw out) = [y]"
    using y(1) by (simp add: dedupe_filter)
  moreover have "wide_of num a = wide_of num b"
    using h draw_key_wide_of by blast
  ultimately show "\<exists>first.
       find (\<lambda>w. draw_key w = draw_key (wide_of num a)) out = Some first \<and>
       filter (\<lambda>w. draw_key w = draw_key (wide_of num a)) (dedupe_by_draw out) = [first] \<and>
       first = wide_of num a \<and> first = wide_of num b"
    using y(1) ya by simp
qed

theorem duplicates_keep_first_witness:
  "sorted_wide decimal example_draws =
     Inr [leap_day_draw, leap_day_draw, january_draw, january_draw] \<and>
   build_wide decimal example_draws =
     Inr (dedupe_by_draw [leap_day_draw, leap_day_draw, january_draw, january_draw]) \<and>
   survives decimal (example_draws ! 0) \<and> survives decimal (example_draws ! 3) \<and>
   draw_key (wide_of decimal (example_draws ! 0)) = draw_key (wide_of decimal (example_draws ! 3)) \<and>
   filter (\<lambda>w. draw_key w = draw_key (wide_of decimal (example_draws ! 0)))
     (dedupe_by_draw [leap_day_draw, leap_day_draw, january_draw, january_draw]) =
     [wide_of decimal (example_draws ! 3)]"
proof -
  note main = duplicates_keep_first_in_sort_order [OF sorted_wide_example]
  have m: "example_draws ! 0 \<in> set example_draws" "example_draws ! 3 \<in> set example_draws"
    by (simp_all add: example_draws_def)
  have s: "survives decimal (example_draws ! 0) \<and> survives decimal (example_draws ! 3) \<and>
     draw_key (wide_of decimal (example_draws ! 0)) = draw_key (wide_of decimal (example_draws ! 3))"
    by code_simp
  have "\<exists>first.
      filter (\<lambda>w. draw_key w = draw_key (wide_of decimal (example_draws ! 0)))
        (dedupe_by_draw [leap_day_draw, leap_day_draw, january_draw, january_draw]) = [first] \<and>
      first = wide_of decimal (example_draws ! 3)"
    using main m s by blast
  then show ?thesis
    using main s sorted_wide_example by simp
qed

lemma dedupe_null_powerplay:
  assumes "i < j" "j < length df"
    and "Date (df ! i) = Date (df ! j)"
    and "Num1 (df ! i) = Num1 (df ! j)" "Num2 (df ! i) = Num2 (df ! j)"
      "Num3 (df ! i) = Num3 (df ! j)" "Num4 (df ! i) = Num4 (df ! j)"
      "Num5 (df ! i) = Num5 (df ! j)"
    and "Powerball (df ! i) = Powerball (df ! j)"
    and "PowerPlay (df ! i) = None" "PowerPlay (df ! j) = None"
  shows "\<exists>first k.
           find (\<lambda>w. draw_key w = draw_key (df ! j)) df = Some first \<and>
           k \<le> i \<and> first = df ! k \<and> PowerPlay first = None \<and>
           filter (\<lambda>w. Date w = Date (df ! j) \<and> Num1 w = Num1 (df ! j) \<and>
                       Num2 w = Num2 (df ! j) \<and> Num3 w = Num3 (df ! j) \<and>
                       Num4 w = Num4 (df ! j) \<and> Num5 w = Num5 (df ! j) \<and>
                       Powerball w = Powerball (df ! j) \<and> PowerPlay w = None)
             (dedupe_by_draw df) = [first]"
proof -
  let ?P = "\<lambda>w. draw_key w = draw_key (df ! j)"
  have P: "?P = (\<lambda>w. Date w = Date (df ! j) \<and> Num1 w = Num1 (df ! j) \<and>
                       Num2 w = Num2 (df ! j) \<and> Num3 w = Num3 (df ! j) \<and>
                       Num4 w = Num4 (df ! j) \<and> Num5 w = Num5 (df ! j) \<and>
                       Powerball w = Powerball (df ! j) \<and> PowerPlay w = None)"
    using assms(11) by (auto simp: draw_key_def)
  have i: "i < length df" "?P (df ! i)"
    using assms by (simp_all add: draw_key_def)
  then obtain first where f: "find ?P df = Some first"
    by (cases "find ?P df") (auto simp: find_None_iff)
  then obtain k where k: "k < length df" "?P (df ! k)" "first = df ! k" "\<forall>m<k. \<not> ?P (df ! m)"
    unfolding find_Some_iff by blast
  have "k \<le> i"
    using k(4) i(2) by (meson not_le)
  moreover have "PowerPlay first = None"
    using k(2,3) assms(11) by (simp add: draw_key_def)
  moreover have "filter ?P (dedupe_by_draw df) = [first]"
    using f by (simp add: dedupe_filter)
  ultimately show ?thesis
    using f k(3) unfolding P by blast
qed

text \<open>
  C9. In the table that \<open>build_wide\<close> has sorted, let two rows agree on Date, Num1 to
  Num5 and Powerball and both have a null PowerPlay. Then the wide output holds exactly
  one row with these values and a null PowerPlay: the first such row of the sorted table,
  which stands at or before the earlier of the two. The two nulls compare equal.
\<close>

theorem null_powerplay_rows_are_duplicates:
  assumes "sorted_wide num raw = Inr df"
    and "i < j" "j < length df"
    and "Date (df ! i) = Date (df ! j)"
    and "Num1 (df ! i) = Num1 (df ! j)" "Num2 (df ! i) = Num2 (df ! j)"
      "Num3 (df ! i) = Num3 (df ! j)" "Num4 (df ! i) = Num4 (df ! j)"
      "Num5 (df ! i) = Num5 (df ! j)"
    and "Powerball (df ! i) = Powerball (df ! j)"
    and "PowerPlay (df ! i) = None" "PowerPlay (df ! j) = None"
  shows "\<exists>wide first k.
           build_wide num raw = Inr wide \<and>
           find (\<lambda>w. draw_key w = draw_key (df ! j)) df = Some first \<and>
           k \<le> i \<and> first = df ! k \<and> PowerPlay first = None \<and>
           filter (\<lambda>w. Date w = Date (df ! j) \<and> Num1 w = Num1 (df ! j) \<and>
                       Num2 w = Num2 (df ! j) \<and> Num3 w = Num3 (df ! j) \<and>
                       Num4 w = Num4 (df ! j) \<and> Num5 w = Num5 (df ! j) \<and>
                       Powerball w = Powerball (df ! j) \<and> PowerPlay w = None) wide = [first]"
proof -
  have "build_wide num raw = Inr (dedupe_by_draw df)"
    using assms(1) by (simp add: build_wide_def)
  then show ?thesis
    using dedupe_null_powerplay [OF assms(2-)] by blast
qed

theorem null_powerplay_duplicates_witness:
  "sorted_wide decimal example_draws =
     Inr [leap_day_draw, leap_day_draw, january_draw, january_draw] \<and>
   PowerPlay leap_day_draw = None \<and>
   build_wide decimal example_draws = Inr example_wide \<and>
   filter (\<lambda>w. Date w = Date leap_day_draw \<and> Num1 w = Num1 leap_day_draw \<and>
               Num2 w = Num2 leap_day_draw \<and> Num3 w = Num3 leap_day_draw \<and>
               Num4 w = Num4 leap_day_draw \<and> Num5 w = Num5 leap_day_draw \<and>
               Powerball w = Powerball leap_day_draw \<and> PowerPlay w = None) example_wide =
     [leap_day_draw]"
proof -
  let ?df = "[leap_day_draw, leap_day_draw, january_draw, january_draw]"
  have pp: "PowerPlay leap_day_draw = None"
    by (simp add: leap_day_draw_def)
  have "\<exists>wide first k.
           build_wide decimal example_draws = Inr wide \<and>
           find (\<lambda>w. draw_key w = draw_key (?df ! 1)) ?df = Some first \<and>
           k \<le> 0 \<and> first = ?df ! k \<and> PowerPlay first = None \<and>
           filter (\<lambda>w. Date w = Date (?df ! 1) \<and> Num1 w = Num1 (?df ! 1) \<and>
                       Num2 w = Num2 (?df ! 1) \<and> Num3 w = Num3 (?df ! 1) \<and>
                       Num4 w = Num4 (?df ! 1) \<and> Num5 w = Num5 (?df ! 1) \<and>
                       Powerball w = Powerball (?df ! 1) \<and> PowerPlay w = None) wide = [first]"
    by (rule null_powerplay_rows_are_duplicates [OF sorted_wide_example, of 0 1])
       (simp_all add: pp)
  then show ?thesis
    using sorted_wide_example build_wide_example pp by auto
qed

lemma Int64_of_Int64: "Int64 (of_Int64 v) = v"
  by (cases v) (simp_all add: Int64_def of_Int64_def)

lemma position_of_name:
  "astype_int (extract_digits ''Num1'') = 1" "astype_int (extract_digits ''Num2'') = 2"
  "astype_int (extract_digits ''Num3'') = 3" "astype_int (extract_digits ''Num4'') = 4"
  "astype_int (extract_digits ''Num5'') = 5"
  by (simp_all add: astype_int_def extract_digits_def is_digit_def digit_value_def)

lemma build_long_eq:
  "build_long wide =
     map (\<lambda>w. ball w ''Main'' (Num1 w) (PosInt 1)) wide @
     map (\<lambda>w. ball w ''Main'' (Num2 w) (PosInt 2)) wide @
     map (\<lambda>w. ball w ''Main'' (Num3 w) (PosInt 3)) wide @
     map (\<lambda>w. ball w ''Main'' (Num4 w) (PosInt 4)) wide @
     map (\<lambda>w. ball w ''Main'' (Num5 w) (PosInt 5)) wide @
     map (\<lambda>w. ball w ''Powerball'' (Powerball w) (PosStr ''PB'')) wide"
  by (simp add: build_long_def melt_def ball_def comp_def position_of_name Int64_of_Int64)

text \<open>
  C2. The long table of a wide table is, up to the order of its rows, the six rows of each
  wide row: five with BallType Main, Position 1 to 5 and BallNumber Num1 to Num5, and one
  with BallType Powerball, Position PB and BallNumber Powerball, each with the Date,
  PowerPlay, Year and YearMonth of the wide row. It has no other row: it has six times as
  many rows as the wide table.
\<close>

theorem long_has_six_rows_per_draw:
  "mset (build_long wide) = mset (concat (map six_balls wide)) \<and>
   length (build_long wide) = 6 * length wide"
proof
  show "mset (build_long wide) = mset (concat (map six_balls wide))"
    unfolding build_long_eq by (induction wide) (simp_all add: six_balls_def)
  show "length (build_long wide) = 6 * length wide"
    unfolding build_long_eq by simp
qed

theorem long_has_six_rows_witness:
  "mset (build_long [january_draw]) =
     {#ball january_draw ''Main'' (Some 3) (PosInt 1), ball january_draw ''Main'' (Some 14) (PosInt 2),
       ball january_draw ''Main'' (Some 22) (PosInt 3), ball january_draw ''Main'' (Some 35) (PosInt 4),
       ball january_draw ''Main'' (Some 41) (PosInt 5),
       ball january_draw ''Powerball'' (Some 9) (PosStr ''PB'')#} \<and>
   length (build_long example_wide) = 12"
  using long_has_six_rows_per_draw [of "[january_draw]"]
    long_has_six_rows_per_draw [of example_wide]
  by (simp add: six_balls_def january_draw_def example_wide_def)

lemma BallNumber_build_long:
  assumes "l \<in> set (build_long wide)"
  shows "\<exists>w\<in>set wide. BallNumber l \<in> {Num1 w, Num2 w, Num3 w, Num4 w, Num5 w, Powerball w}"
  using assms unfolding build_long_eq by (auto simp: ball_def)

text \<open>
  C10. In the long table made of the wide output of \<open>build_wide\<close>, no BallNumber is
  null: each is the Num1 to Num5 or the Powerball of a row of the wide output, and these
  are not null.
\<close>

theorem ball_number_never_null:
  assumes "build_wide num df = Inr wide"
  shows "\<forall>l\<in>set (build_long wide).
           BallNumber l \<noteq> None \<and>
           (\<exists>w\<in>set wide. BallNumber l \<in> {Num1 w, Num2 w, Num3 w, Num4 w, Num5 w, Powerball w})"
proof
  fix l assume l: "l \<in> set (build_long wide)"
  then obtain w where w: "w \<in> set wide"
    "BallNumber l \<in> {Num1 w, Num2 w, Num3 w, Num4 w, Num5 w, Powerball w}"
    using BallNumber_build_long by blast
  then obtain r where "survives num r" "w = wide_of num r"
    using build_wide_rows [OF assms] by auto
  then have "Num1 w \<noteq> None \<and> Num2 w \<noteq> None \<and> Num3 w \<noteq> None \<and> Num4 w \<noteq> None \<and>
             Num5 w \<noteq> None \<and> Powerball w \<noteq> None"
    using survives_numbers by blast
  then have "BallNumber l \<noteq> None"
    using w(2) by auto
  then show "BallNumber l \<noteq> None \<and>
      (\<exists>w\<in>set wide. BallNumber l \<in> {Num1 w, Num2 w, Num3 w, Num4 w, Num5 w, Powerball w})"
    using w by blast
qed

theorem ball_number_never_null_witness:
  "build_wide decimal example_draws = Inr example_wide \<and>
   list_all (\<lambda>l. BallNumber l \<noteq> None) (build_long example_wide) \<and>
   map BallNumber (build_long [january_draw]) =
     [Some 3, Some 14, Some 22, Some 35, Some 41, Some 9]"
proof -
  have "list_all (\<lambda>l. BallNumber l \<noteq> None) (build_long example_wide)"
    using ball_number_never_null [OF build_wide_example] by (simp add: list_all_iff)
  moreover have "map BallNumber (build_long [january_draw]) =
     [Some 3, Some 14, Some 22, Some 35, Some 41, Some 9]"
    by code_simp
  ultimately show ?thesis
    using build_wide_example by simp
qed

section \<open>The data dictionary\<close>

text \<open>
  C8, as amended. Whenever \<open>main\<close> gets as far as writing, the dictionary it writes is
  the constant \<open>data_dict\<close>, whatever the input. Its header is \<open>column\<close>,
  \<open>description\<close>, and its rows describe the thirteen columns of the two outputs: the
  ten of the wide table, then BallType, BallNumber and Position. It has no row for Game,
  Month or Day.
\<close>

theorem data_dictionary_columns:
  assumes "clean_main num csv = Inr (wide, long, dict)"
  shows "dict = data_dict \<and>
         columns dict = [''column'', ''description''] \<and>
         getcol ''column'' dict =
           map Some (WIDE_COLS @ [''BallType'', ''BallNumber'', ''Position'']) \<and>
         set (WIDE_COLS @ [''BallType'', ''BallNumber'', ''Position'']) = set WIDE_COLS \<union> set LONG_COLS \<and>
         Some ''Game'' \<notin> set (getcol ''column'' dict) \<and>
         Some ''Month'' \<notin> set (getcol ''column'' dict) \<and>
         Some ''Day'' \<notin> set (getcol ''column'' dict)"
proof -
  have d: "dict = data_dict"
    using assms by (auto simp: clean_main_def split: sum.splits)
  have c: "getcol ''column'' data_dict =
           map Some (WIDE_COLS @ [''BallType'', ''BallNumber'', ''Position''])"
    by (simp add: getcol_def data_dict_def WIDE_COLS_def)
  have s: "set (WIDE_COLS @ [''BallType'', ''BallNumber'', ''Position'']) = set WIDE_COLS \<union> set LONG_COLS"
    by (auto simp: WIDE_COLS_def LONG_COLS_def)
  show ?thesis
    unfolding d c using s by (simp add: data_dict_def) (simp add: WIDE_COLS_def)
qed

theorem data_dictionary_witness:
  "clean_main decimal eleven_columns = Inr ([january_draw], build_long [january_draw], data_dict) \<and>
   columns data_dict = [''column'', ''description''] \<and>
   getcol ''column'' data_dict =
     map Some (WIDE_COLS @ [''BallType'', ''BallNumber'', ''Position'']) \<and>
   Some ''Game'' \<notin> set (getcol ''column'' data_dict)"
proof -
  have "clean_main decimal eleven_columns =
      Inr ([january_draw], build_long [january_draw], data_dict)"
    by code_simp
  from data_dictionary_columns [OF this] this show ?thesis
    by blast
qed

text \<open>
  C8 as stated fails: Game, Month and Day are column names that section 3 documents, and
  the dictionary has no row for any of them.
\<close>

theorem data_dictionary_lacks_raw_fields:
  "''Game'' \<in> set documented_columns \<and> Some ''Game'' \<notin> set (getcol ''column'' data_dict) \<and>
   ''Month'' \<in> set documented_columns \<and> Some ''Month'' \<notin> set (getcol ''column'' data_dict) \<and>
   ''Day'' \<in> set documented_columns \<and> Some ''Day'' \<notin> set (getcol ''column'' data_dict)"
  by (simp add: documented_columns_def getcol_def data_dict_def)

section \<open>Properties of the Loader\<close>

lemma cell_map: "cell cs (map (map_option f) r) c = map_option f (cell cs r c)"
proof (induction cs arbitrary: r)
  case Nil
  then show ?case by simp
next
  case (Cons a cs)
  then show ?case by (cases r) simp_all
qed

lemma getitem_present:
  "set cols \<subseteq> set (columns df) \<Longrightarrow> getitem cols df = Inr (take_columns cols df)"
  by (simp add: getitem_def find_None_iff [THEN iffD2] subset_iff)

lemma take_columns_read_csv_str:
  "take_columns cols (read_csv_str file) = read_csv_str (take_columns cols file)"
  by (simp add: take_columns_def read_csv_str_def cell_map comp_def)


lemma columns_map_column [simp]: "columns (map_column c f df) = columns df"
  by (simp add: map_column_def)

lemma length_rows_map_column [simp]: "length (rows (map_column c f df)) = length (rows df)"
  by (simp add: map_column_def)

lemma coerce_types_shape:
  "coerce_types num out schema = Inr df \<Longrightarrow>
     columns df = columns out \<and> length (rows df) = length (rows out)"
  by (induction num out schema rule: coerce_types.induct) (auto split: if_splits)



text \<open>What \<open>main\<close> does once no expected column is missing.\<close>

lemma load_main_present:
  assumes "infer_schema (arg_schema args) = Inr (schema, cols)"
    and "set cols \<subseteq> set (columns file)"
  shows "load_main num args (Some file) conn =
     (case coerce_types num (read_csv_str (take_columns cols file)) schema of
        Inl e \<Rightarrow> (Some e, conn)
      | Inr df \<Rightarrow>
         (case insert_rows (create_table conn (arg_table args) schema (arg_replace args))
                 (arg_table args) df cols of
            Inl e \<Rightarrow> (Some e, create_table conn (arg_table args) schema (arg_replace args))
          | Inr conn' \<Rightarrow> (None, conn')))"
proof -
  have c: "columns (read_csv_str file) = columns file"
    by (simp add: read_csv_str_def)
  have "filter (\<lambda>c. c \<notin> set (columns file)) cols = []"
    using assms(2) by (auto simp: filter_empty_conv)
  moreover have "getitem cols (read_csv_str file) = Inr (read_csv_str (take_columns cols file))"
    using assms(2) by (simp add: getitem_present c take_columns_read_csv_str)
  ultimately show ?thesis
    using assms(1) by (simp add: load_main_def c Let_def split: sum.splits)
qed

lemma load_main_missing:
  assumes "infer_schema (arg_schema args) = Inr (schema, cols)"
    and "\<not> set cols \<subseteq> set (columns file)"
  shows "load_main num args (Some file) conn =
     (Some (MissingColumns (filter (\<lambda>c. c \<notin> set (columns file)) cols)), conn)"
proof -
  have "filter (\<lambda>c. c \<notin> set (columns file)) cols \<noteq> []"
    using assms(2) by (auto simp: filter_empty_conv)
  then show ?thesis
    using assms(1) by (simp add: load_main_def read_csv_str_def Let_def)
qed




lemma insert_rows_eq:
  assumes "set cols \<subseteq> set (columns df)" "conn t = Some tb"
  shows "insert_rows conn t df cols =
     (if set cols \<subseteq> set (map fst (tcols tb))
      then Inr (conn(t \<mapsto> tb\<lparr>trows := trows tb @ bind_rows (tcols tb) cols (take_columns cols df)\<rparr>))
      else Inl (OperationalError ''no such column''))"
  using assms by (auto simp: insert_rows_def getitem_present list_all_iff)

lemma length_bind_rows: "length (bind_rows tcs cols (take_columns cols df)) = length (rows df)"
  by (simp add: bind_rows_def take_columns_def)

lemma create_table_at:
  "create_table conn t schema rep t =
     Some (if rep then \<lparr>tcols = schema, trows = []\<rparr>
           else (case conn t of None \<Rightarrow> \<lparr>tcols = schema, trows = []\<rparr> | Some tb \<Rightarrow> tb))"
  by (simp add: create_table_def split: option.splits)

lemma create_table_again:
  assumes "c0 = create_table conn t schema rep" "c0 t = Some tb0"
  shows "create_table (c0(t \<mapsto> tb0\<lparr>trows := rs\<rparr>)) t schema rep =
           (if rep then c0 else c0(t \<mapsto> tb0\<lparr>trows := rs\<rparr>))"
proof (cases rep)
  case True
  have "c0 = (conn(t := None))(t \<mapsto> \<lparr>tcols = schema, trows = []\<rparr>)"
    using assms(1) True by (simp add: create_table_def)
  then show ?thesis using True by (simp add: create_table_def)
next
  case False
  then show ?thesis by (simp add: create_table_def)
qed

text \<open>A run that succeeds, taken apart.\<close>

lemma load_main_success:
  assumes "load_main num args (Some file) conn = (None, conn1)"
  obtains schema cols df tb where
    "infer_schema (arg_schema args) = Inr (schema, cols)"
    "set cols \<subseteq> set (columns file)"
    "coerce_types num (read_csv_str (take_columns cols file)) schema = Inr df"
    "columns df = cols" "length (rows df) = length (rows file)"
    "create_table conn (arg_table args) schema (arg_replace args) (arg_table args) = Some tb"
    "set cols \<subseteq> set (map fst (tcols tb))"
    "conn1 = (create_table conn (arg_table args) schema (arg_replace args))
               (arg_table args \<mapsto> tb\<lparr>trows := trows tb @ bind_rows (tcols tb) cols (take_columns cols df)\<rparr>)"
proof -
  obtain schema cols where sc: "infer_schema (arg_schema args) = Inr (schema, cols)"
    using assms by (cases "infer_schema (arg_schema args)") (auto simp: load_main_def)
  have p: "set cols \<subseteq> set (columns file)"
  proof (rule ccontr)
    assume "\<not> set cols \<subseteq> set (columns file)"
    from load_main_missing [OF sc this, of num conn] assms show False by simp
  qed
  note run = load_main_present [OF sc p, of num conn]
  obtain df where df: "coerce_types num (read_csv_str (take_columns cols file)) schema = Inr df"
    using assms unfolding run
    by (cases "coerce_types num (read_csv_str (take_columns cols file)) schema") auto
  have sh: "columns df = cols" "length (rows df) = length (rows file)"
    using coerce_types_shape [OF df] by (simp_all add: read_csv_str_def take_columns_def)
  let ?c0 = "create_table conn (arg_table args) schema (arg_replace args)"
  obtain tb where tb: "?c0 (arg_table args) = Some tb"
    by (simp add: create_table_at)
  have ins: "insert_rows ?c0 (arg_table args) df cols = Inr conn1"
    using assms unfolding run df
    by (cases "insert_rows ?c0 (arg_table args) df cols") simp_all
  have sub: "set cols \<subseteq> set (columns df)"
    by (simp add: sh)
  have "set cols \<subseteq> set (map fst (tcols tb))"
    and "conn1 = ?c0(arg_table args \<mapsto>
            tb\<lparr>trows := trows tb @ bind_rows (tcols tb) cols (take_columns cols df)\<rparr>)"
    using ins insert_rows_eq [of cols df ?c0 "arg_table args" tb, OF sub tb]
    by (auto split: if_splits)
  then show thesis
    using that sc p df sh tb by blast
qed

text \<open>
  C5. Let a load succeed and leave the store \<open>conn1\<close>. Then the same load from
  \<open>conn1\<close> succeeds as well. With replace, the table is the one the schema declares,
  it holds as many rows as the file, and the second load leaves the same number. Without
  replace, each load adds as many rows as the file has to those already there, so that
  from an absent or empty table the second load leaves twice the rows of the first; a
  table that exists keeps its rows, and the new ones come after them.
\<close>

theorem replace_is_idempotent_append_accumulates:
  assumes "load_main num args (Some file) conn = (None, conn1)"
  shows "\<exists>conn2.
     load_main num args (Some file) conn1 = (None, conn2) \<and>
     (arg_replace args \<longrightarrow>
        row_count conn1 (arg_table args) = length (rows file) \<and>
        row_count conn2 (arg_table args) = row_count conn1 (arg_table args) \<and>
        (\<exists>schema cols new.
           infer_schema (arg_schema args) = Inr (schema, cols) \<and>
           conn1 (arg_table args) = Some \<lparr>tcols = schema, trows = new\<rparr>)) \<and>
     (\<not> arg_replace args \<longrightarrow>
        row_count conn1 (arg_table args) = row_count conn (arg_table args) + length (rows file) \<and>
        row_count conn2 (arg_table args) =
          row_count conn (arg_table args) + 2 * length (rows file) \<and>
        (row_count conn (arg_table args) = 0 \<longrightarrow>
           row_count conn2 (arg_table args) = 2 * row_count conn1 (arg_table args)) \<and>
        (\<forall>tb. conn (arg_table args) = Some tb \<longrightarrow>
           (\<exists>new. conn1 (arg_table args) = Some (tb\<lparr>trows := trows tb @ new\<rparr>) \<and>
                  length new = length (rows file))))"
proof -
  let ?t = "arg_table args" and ?rep = "arg_replace args"
  from load_main_success [OF assms]
  obtain schema cols df tb where
    sc: "infer_schema (arg_schema args) = Inr (schema, cols)"
    and p: "set cols \<subseteq> set (columns file)"
    and df: "coerce_types num (read_csv_str (take_columns cols file)) schema = Inr df"
    and sh: "columns df = cols" "length (rows df) = length (rows file)"
    and tb: "create_table conn ?t schema ?rep ?t = Some tb"
    and sub: "set cols \<subseteq> set (map fst (tcols tb))"
    and c1: "conn1 = (create_table conn ?t schema ?rep)
               (?t \<mapsto> tb\<lparr>trows := trows tb @ bind_rows (tcols tb) cols (take_columns cols df)\<rparr>)"
    by blast
  let ?c0 = "create_table conn ?t schema ?rep"
  let ?new = "bind_rows (tcols tb) cols (take_columns cols df)"
  let ?tb1 = "tb\<lparr>trows := trows tb @ ?new\<rparr>"
  have len: "length ?new = length (rows file)"
    by (simp add: length_bind_rows sh)
  have tb_rep: "tb = \<lparr>tcols = schema, trows = []\<rparr>" if ?rep
    using tb that by (simp add: create_table_at)
  have tb_keep: "length (trows tb) = row_count conn ?t" if "\<not> ?rep"
    using tb that by (auto simp: create_table_at row_count_def split: option.splits)
  have tb_old: "tb = old" if "\<not> ?rep" "conn ?t = Some old" for old
    using tb that by (simp add: create_table_at)
  have cols_df: "set cols \<subseteq> set (columns df)"
    by (simp add: sh)
  \<comment> \<open>the second run\<close>
  let ?c1 = "create_table conn1 ?t schema ?rep"
  have c1': "?c1 = (if ?rep then ?c0 else conn1)"
    unfolding c1 by (rule create_table_again [OF refl tb])
  let ?tb2 = "if ?rep then tb else ?tb1"
  have at: "?c1 ?t = Some ?tb2"
    unfolding c1' using tb by (cases ?rep) (simp_all add: c1)
  have sub2: "set cols \<subseteq> set (map fst (tcols ?tb2))"
    using sub by simp
  let ?conn2 = "?c1(?t \<mapsto> ?tb2\<lparr>trows := trows ?tb2 @ bind_rows (tcols ?tb2) cols (take_columns cols df)\<rparr>)"
  have ins2: "insert_rows ?c1 ?t df cols = Inr ?conn2"
    using insert_rows_eq [of cols df ?c1 ?t ?tb2, OF cols_df at] sub2 by simp
  have run2: "load_main num args (Some file) conn1 = (None, ?conn2)"
    by (simp add: load_main_present [OF sc p] df ins2)
  have same: "?conn2 = conn1" if ?rep
    unfolding c1' using that by (simp add: c1)
  have count1: "row_count conn1 ?t = length (trows tb) + length (rows file)"
    by (simp add: c1 row_count_def len)
  have count2: "row_count ?conn2 ?t = length (trows tb) + 2 * length (rows file)" if "\<not> ?rep"
    unfolding c1' using that by (simp add: row_count_def len)
  show ?thesis
  proof (intro exI [of _ ?conn2] conjI impI allI)
    show "load_main num args (Some file) conn1 = (None, ?conn2)"
      by (rule run2)
  next
    assume r: ?rep
    show "row_count conn1 ?t = length (rows file)"
      using count1 tb_rep [OF r] by simp
    show "row_count ?conn2 ?t = row_count conn1 ?t"
      using same [OF r] by simp
    show "\<exists>schema cols new.
           infer_schema (arg_schema args) = Inr (schema, cols) \<and>
           conn1 ?t = Some \<lparr>tcols = schema, trows = new\<rparr>"
      using sc tb_rep [OF r] by (intro exI [of _ schema] exI [of _ cols] exI [of _ ?new])
        (simp add: c1)
  next
    assume r: "\<not> ?rep"
    show a: "row_count conn1 ?t = row_count conn ?t + length (rows file)"
      using count1 tb_keep [OF r] by simp
    show b: "row_count ?conn2 ?t = row_count conn ?t + 2 * length (rows file)"
      using count2 [OF r] tb_keep [OF r] by simp
    show "row_count ?conn2 ?t = 2 * row_count conn1 ?t" if "row_count conn ?t = 0"
      using a b that by simp
    show "\<exists>new. conn1 ?t = Some (old\<lparr>trows := trows old @ new\<rparr>) \<and>
            length new = length (rows file)" if "conn ?t = Some old" for old
      using tb_old [OF r that] len by (intro exI [of _ ?new]) (simp add: c1)
  qed
qed



lemma load_once_ok:
  "load_main decimal (wide_args r) (Some example_wide_csv) Map.empty = (None, load_once r)"
proof -
  have "fst (load_main decimal (wide_args False) (Some example_wide_csv) Map.empty) = None"
    "fst (load_main decimal (wide_args True) (Some example_wide_csv) Map.empty) = None"
    by code_simp+
  then have "fst (load_main decimal (wide_args r) (Some example_wide_csv) Map.empty) = None"
    by (cases r) simp_all
  then show ?thesis
    by (simp add: load_once_def prod_eq_iff)
qed

theorem replace_idempotent_append_witness:
  "row_count (load_once True) ''draws_wide'' = 2 \<and>
   row_count (load_twice True) ''draws_wide'' = 2 \<and>
   row_count (load_once False) ''draws_wide'' = 2 \<and>
   row_count (load_twice False) ''draws_wide'' = 4"
proof -
  have n: "length (rows example_wide_csv) = 2"
    by (simp add: example_wide_csv_def)
  have t: "arg_table (wide_args r) = ''draws_wide''" "arg_replace (wide_args r) = r" for r
    by (simp_all add: wide_args_def)
  have z: "row_count Map.empty ''draws_wide'' = 0"
    by (simp add: row_count_def)
  from replace_is_idempotent_append_accumulates [OF load_once_ok [of True]]
  obtain c2 where
    "load_main decimal (wide_args True) (Some example_wide_csv) (load_once True) = (None, c2)"
    "row_count (load_once True) ''draws_wide'' = 2"
    "row_count c2 ''draws_wide'' = row_count (load_once True) ''draws_wide''"
    unfolding t n by blast
  then have a: "row_count (load_once True) ''draws_wide'' = 2 \<and>
      row_count (load_twice True) ''draws_wide'' = 2"
    by (simp add: load_twice_def)
  from replace_is_idempotent_append_accumulates [OF load_once_ok [of False]]
  obtain c2 where
    "load_main decimal (wide_args False) (Some example_wide_csv) (load_once False) = (None, c2)"
    "row_count (load_once False) ''draws_wide'' = row_count Map.empty ''draws_wide'' + 2"
    "row_count c2 ''draws_wide'' = row_count Map.empty ''draws_wide'' + 2 * 2"
    unfolding t n by blast
  then have b: "row_count (load_once False) ''draws_wide'' = 2 \<and>
      row_count (load_twice False) ''draws_wide'' = 4"
    by (simp add: load_twice_def z)
  show ?thesis
    using a b by blast
qed

end
